theory Spec2Isabelle
  imports Main "HOL-Library.AList" "HOL-Library.Multiset" "HOL-Library.Product_Lexorder"
begin

section \<open>Data model (src/main.py, lines 19-60)\<close>

datatype TaskStatus = TODO | IN_PROGRESS | COMPLETED | CANCELLED

datatype Priority = LOW | MEDIUM | HIGH | URGENT

text \<open>
  Both enums mix in \<open>str\<close>; \<open>status_value\<close> and \<open>priority_value\<close> are the members'
  \<open>.value\<close>, and \<open>TaskStatus_of_value\<close> is the call \<open>TaskStatus(s)\<close>, which looks a
  member up by its value and raises \<open>ValueError\<close> (here \<open>None\<close>) when there is none.
\<close>

fun status_value :: "TaskStatus \<Rightarrow> string" where
  "status_value TODO = ''todo''"
| "status_value IN_PROGRESS = ''in_progress''"
| "status_value COMPLETED = ''completed''"
| "status_value CANCELLED = ''cancelled''"

fun priority_value :: "Priority \<Rightarrow> string" where
  "priority_value LOW = ''low''"
| "priority_value MEDIUM = ''medium''"
| "priority_value HIGH = ''high''"
| "priority_value URGENT = ''urgent''"

definition TaskStatus_of_value :: "string \<Rightarrow> TaskStatus option" where
  "TaskStatus_of_value s =
     (if s = ''todo'' then Some TODO
      else if s = ''in_progress'' then Some IN_PROGRESS
      else if s = ''completed'' then Some COMPLETED
      else if s = ''cancelled'' then Some CANCELLED
      else None)"

text \<open>
  A \<open>datetime\<close> is either naive (no time zone; what \<open>datetime.now()\<close> returns) or aware
  (what \<open>fromisoformat\<close> returns for a string with an offset such as \<open>+00:00\<close>). The
  integer is a count of microseconds: of the local wall clock for a naive value, of UTC for
  an aware one. Python orders two naive values and two aware values, and raises
  \<open>TypeError\<close> when asked to order a naive value against an aware one.
\<close>

datatype datetime = Naive int | Aware int

datatype error = ValueError string | TypeError string | KeyError string | AttributeError string

fun datetime_lt :: "datetime \<Rightarrow> datetime \<Rightarrow> error + bool" where
  "datetime_lt (Naive a) (Naive b) = Inr (a < b)"
| "datetime_lt (Aware a) (Aware b) = Inr (a < b)"
| "datetime_lt _ _ = Inl (TypeError ''can't compare offset-naive and offset-aware datetimes'')"

text \<open>
  \<open>Task\<close> declares the types of its fields, but \<open>update_task\<close> assigns them with
  \<open>setattr\<close>, which a pydantic model does not validate: a field that a patch may name
  holds whatever the patch carried, \<open>None\<close> included. So \<open>title\<close>, \<open>status\<close>,
  \<open>priority\<close> and \<open>tags\<close> are options as well, with \<open>None\<close> for Python's \<open>None\<close>,
  and \<open>due_date\<close> holds a datetime or the patch's string itself, which line 106 stores
  when the string is empty. \<open>task_id\<close> (the field \<open>id\<close>) and \<open>created_at\<close> are set at
  creation only, and \<open>created_at\<close> and \<open>completed_at\<close> only ever receive
  \<open>datetime.now()\<close>: they are modelled by the naive clock reading.
\<close>

datatype due_value = DueDatetime datetime | DueStr string

record Task =
  task_id :: string
  title :: "string option"
  description :: "string option"
  status :: "TaskStatus option"
  priority :: "Priority option"
  created_at :: int
  due_date :: "due_value option"
  completed_at :: "int option"
  tags :: "string list option"

record CreateTaskRequest =
  c_title :: string
  c_description :: "string option"
  c_priority :: Priority
  c_due_date :: "string option"
  c_tags :: "string list"

text \<open>
  Every field of \<open>UpdateTaskRequest\<close> is declared \<open>Optional\<close> with the default
  \<open>None\<close>, and pydantic records which fields the caller set. A field is \<open>None\<close> here
  when the caller left it unset, \<open>Some None\<close> when the caller set it to \<open>null\<close>, and
  \<open>Some (Some v)\<close> when the caller set it to \<open>v\<close>. \<open>model_dump(exclude_unset=True)\<close>
  lists exactly the fields that were set, a field set to \<open>null\<close> included, in
  declaration order.
\<close>

record UpdateTaskRequest =
  u_title :: "string option option"
  u_description :: "string option option"
  u_status :: "TaskStatus option option"
  u_priority :: "Priority option option"
  u_due_date :: "string option option"
  u_tags :: "string list option option"

section \<open>Python built-ins used by the store\<close>

text \<open>\<open>str(n)\<close> for an integer: its decimal digits, with a minus sign when negative.\<close>

definition digit_char :: "nat \<Rightarrow> char" where
  "digit_char d = ''0123456789'' ! d"

fun str_nat :: "nat \<Rightarrow> string" where
  "str_nat n = (if n < 10 then [digit_char n] else str_nat (n div 10) @ [digit_char (n mod 10)])"

declare str_nat.simps [simp del]

definition str_int :: "int \<Rightarrow> string" where
  "str_int i = (if i < 0 then CHR ''-'' # str_nat (nat (- i)) else str_nat (nat i))"

text \<open>\<open>s.replace('Z', '+00:00')\<close>: every \<open>Z\<close> of the string is replaced.\<close>

definition replace_Z :: "string \<Rightarrow> string" where
  "replace_Z s = concat (map (\<lambda>c. if c = CHR ''Z'' then ''+00:00'' else [c]) s)"

text \<open>
  \<open>datetime.fromisoformat\<close> belongs to the standard library, not to this repository: the
  operations take it as the parameter \<open>fromiso\<close>, which returns the parsed datetime or
  the message of the \<open>ValueError\<close> it raises. The clock \<open>datetime.now()\<close> is the
  parameter \<open>now\<close> of each operation.
\<close>

type_synonym parser = "string \<Rightarrow> string + datetime"

definition parse_due :: "parser \<Rightarrow> string \<Rightarrow> error + datetime" where
  "parse_due fromiso s =
     (case fromiso (replace_Z s) of Inl msg \<Rightarrow> Inl (ValueError msg) | Inr d \<Rightarrow> Inr d)"

section \<open>The store (class \<open>TaskStorage\<close>, lines 64-165)\<close>

text \<open>
  \<open>self.tasks\<close> is a dict, which keeps its keys in insertion order: an association list
  with \<open>map_of\<close> for \<open>get\<close>, \<open>AList.update\<close> for item assignment (the value of an
  existing key is replaced where it stands, a new key goes to the end) and
  \<open>AList.delete\<close> for \<open>del\<close>. Each method takes the store and returns it updated,
  also when it raises: an exception does not undo the assignments made before it.
\<close>

record TaskStorage =
  tasks :: "(string \<times> Task) list"
  next_id :: int

definition TaskStorage_init :: TaskStorage where
  "TaskStorage_init = \<lparr>tasks = [], next_id = 1\<rparr>"

definition create_task ::
  "parser \<Rightarrow> int \<Rightarrow> TaskStorage \<Rightarrow> CreateTaskRequest \<Rightarrow> (error + Task) \<times> TaskStorage" where
  "create_task fromiso now st request =
     (let new_id = str_int (next_id st);
          st1 = st\<lparr>next_id := next_id st + 1\<rparr>;
          due = (case c_due_date request of
                   None \<Rightarrow> Inr None
                 | Some s \<Rightarrow>
                     if s \<noteq> [] then
                       (case parse_due fromiso s of
                          Inl e \<Rightarrow> Inl e
                        | Inr d \<Rightarrow> Inr (Some (DueDatetime d)))
                     else Inr None)
      in case due of
           Inl e \<Rightarrow> (Inl e, st1)
         | Inr d \<Rightarrow>
             (let task = \<lparr>task_id = new_id, title = Some (c_title request),
                          description = c_description request, status = Some TODO,
                          priority = Some (c_priority request), created_at = now,
                          due_date = d, completed_at = None,
                          tags = Some (c_tags request)\<rparr>
              in (Inr task, st1\<lparr>tasks := AList.update new_id task (tasks st1)\<rparr>)))"

definition get_task :: "TaskStorage \<Rightarrow> string \<Rightarrow> Task option" where
  "get_task st tid = map_of (tasks st) tid"

text \<open>
  \<open>update_task\<close>: \<open>model_dump\<close> lists the fields the caller set, the loop of lines
  99-106 builds the dict \<open>update_data\<close> (here the list of its assignments, in insertion
  order; no field occurs twice), and the loop of lines 108-109 assigns them. The test
  \<open>and value\<close> of line 100 is false for \<open>None\<close> and for the empty string, and
  \<open>value == TaskStatus.COMPLETED\<close> is false for \<open>None\<close>.
\<close>

datatype patch_item =
  PTitle "string option" | PDescription "string option" | PStatus "TaskStatus option"
| PPriority "Priority option" | PDueDate "string option" | PTags "string list option"

definition model_dump :: "UpdateTaskRequest \<Rightarrow> patch_item list" where
  "model_dump u =
     (case u_title u of None \<Rightarrow> [] | Some v \<Rightarrow> [PTitle v]) @
     (case u_description u of None \<Rightarrow> [] | Some v \<Rightarrow> [PDescription v]) @
     (case u_status u of None \<Rightarrow> [] | Some v \<Rightarrow> [PStatus v]) @
     (case u_priority u of None \<Rightarrow> [] | Some v \<Rightarrow> [PPriority v]) @
     (case u_due_date u of None \<Rightarrow> [] | Some v \<Rightarrow> [PDueDate v]) @
     (case u_tags u of None \<Rightarrow> [] | Some v \<Rightarrow> [PTags v])"

datatype assignment =
  SetTitle "string option" | SetDescription "string option" | SetStatus "TaskStatus option"
| SetPriority "Priority option" | SetDueDate "due_value option" | SetCompletedAt int
| SetTags "string list option"

fun loop_body :: "parser \<Rightarrow> int \<Rightarrow> Task \<Rightarrow> patch_item \<Rightarrow> error + assignment list" where
  "loop_body fromiso now task (PDueDate v) =
     (case v of
        None \<Rightarrow> Inr [SetDueDate None]
      | Some s \<Rightarrow>
          if s \<noteq> [] then
            (case parse_due fromiso s of
               Inl e \<Rightarrow> Inl e
             | Inr d \<Rightarrow> Inr [SetDueDate (Some (DueDatetime d))])
          else Inr [SetDueDate (Some (DueStr s))])"
| "loop_body fromiso now task (PStatus v) =
     (if v = Some COMPLETED \<and> status task \<noteq> Some COMPLETED
      then Inr [SetStatus v, SetCompletedAt now]
      else Inr [SetStatus v])"
| "loop_body fromiso now task (PTitle v) = Inr [SetTitle v]"
| "loop_body fromiso now task (PDescription v) = Inr [SetDescription v]"
| "loop_body fromiso now task (PPriority v) = Inr [SetPriority v]"
| "loop_body fromiso now task (PTags v) = Inr [SetTags v]"

fun update_loop ::
  "parser \<Rightarrow> int \<Rightarrow> Task \<Rightarrow> patch_item list \<Rightarrow> assignment list \<Rightarrow> error + assignment list" where
  "update_loop fromiso now task [] update_data = Inr update_data"
| "update_loop fromiso now task (item # items) update_data =
     (case loop_body fromiso now task item of
        Inl e \<Rightarrow> Inl e
      | Inr new \<Rightarrow> update_loop fromiso now task items (update_data @ new))"

fun setattr :: "Task \<Rightarrow> assignment \<Rightarrow> Task" where
  "setattr task (SetTitle v) = task\<lparr>title := v\<rparr>"
| "setattr task (SetDescription v) = task\<lparr>description := v\<rparr>"
| "setattr task (SetStatus v) = task\<lparr>status := v\<rparr>"
| "setattr task (SetPriority v) = task\<lparr>priority := v\<rparr>"
| "setattr task (SetDueDate v) = task\<lparr>due_date := v\<rparr>"
| "setattr task (SetCompletedAt v) = task\<lparr>completed_at := Some v\<rparr>"
| "setattr task (SetTags v) = task\<lparr>tags := v\<rparr>"

definition update_task ::
  "parser \<Rightarrow> int \<Rightarrow> TaskStorage \<Rightarrow> string \<Rightarrow> UpdateTaskRequest
     \<Rightarrow> (error + Task option) \<times> TaskStorage" where
  "update_task fromiso now st tid updates =
     (case map_of (tasks st) tid of
        None \<Rightarrow> (Inr None, st)
      | Some task \<Rightarrow>
          (case update_loop fromiso now task (model_dump updates) [] of
             Inl e \<Rightarrow> (Inl e, st)
           | Inr update_data \<Rightarrow>
               (let task' = foldl setattr task update_data
                in (Inr (Some task'), st\<lparr>tasks := AList.update tid task' (tasks st)\<rparr>))))"

definition delete_task :: "TaskStorage \<Rightarrow> string \<Rightarrow> bool \<times> TaskStorage" where
  "delete_task st tid =
     (if map_of (tasks st) tid \<noteq> None
      then (True, st\<lparr>tasks := AList.delete tid (tasks st)\<rparr>)
      else (False, st))"

text \<open>
  \<open>list_tasks\<close>: \<open>if status:\<close> tests the truth value of a \<open>str\<close> enum member, which is
  that of its value, and \<open>if tag:\<close> that of the tag; an empty string is false. The
  comprehension of line 126 evaluates \<open>tag in t.tags\<close> for each task in turn, which
  raises \<open>TypeError\<close> when \<open>t.tags\<close> is \<open>None\<close>. \<open>list.sort\<close> first applies the key
  function of line 130 to every element in turn, where \<open>priority_order[None]\<close> raises
  \<open>KeyError\<close>, and then sorts the elements by their keys, the tuples ordered
  lexicographically; the sort is stable, as \<open>sort_key\<close> is.
\<close>

fun priority_order :: "Priority \<Rightarrow> nat" where
  "priority_order URGENT = 0"
| "priority_order HIGH = 1"
| "priority_order MEDIUM = 2"
| "priority_order LOW = 3"

definition list_key :: "Task \<Rightarrow> error + nat \<times> int" where
  "list_key t =
     (case priority t of
        None \<Rightarrow> Inl (KeyError ''None'')
      | Some p \<Rightarrow> Inr (priority_order p, created_at t))"

fun list_keys :: "Task list \<Rightarrow> error + (nat \<times> int) list" where
  "list_keys [] = Inr []"
| "list_keys (t # ts) =
     (case list_key t of
        Inl e \<Rightarrow> Inl e
      | Inr k \<Rightarrow> (case list_keys ts of Inl e \<Rightarrow> Inl e | Inr ks \<Rightarrow> Inr (k # ks)))"

fun tag_filter :: "string \<Rightarrow> Task list \<Rightarrow> error + Task list" where
  "tag_filter g [] = Inr []"
| "tag_filter g (t # ts) =
     (case tags t of
        None \<Rightarrow> Inl (TypeError ''argument of type 'NoneType' is not iterable'')
      | Some tg \<Rightarrow>
          (case tag_filter g ts of
             Inl e \<Rightarrow> Inl e
           | Inr r \<Rightarrow> Inr (if g \<in> set tg then t # r else r)))"

definition list_tasks ::
  "TaskStorage \<Rightarrow> TaskStatus option \<Rightarrow> string option \<Rightarrow> error + Task list" where
  "list_tasks st status_filter tag =
     (let ts = map snd (tasks st);
          ts1 = (case status_filter of
                   None \<Rightarrow> ts
                 | Some s \<Rightarrow>
                     if status_value s \<noteq> [] then filter (\<lambda>t. status t = Some s) ts else ts)
      in case (case tag of
                 None \<Rightarrow> Inr ts1
               | Some g \<Rightarrow> if g \<noteq> [] then tag_filter g ts1 else Inr ts1) of
           Inl e \<Rightarrow> Inl e
         | Inr ts2 \<Rightarrow>
             (case list_keys ts2 of
                Inl e \<Rightarrow> Inl e
              | Inr ks \<Rightarrow> Inr (map snd (sort_key fst (zip ks ts2)))))"

text \<open>
  \<open>get_stats\<close>: the two counting dicts are association lists; the key \<open>overdue\<close> is
  absent from the result for an empty store. \<open>task.status.value\<close> and
  \<open>task.priority.value\<close> raise \<open>AttributeError\<close> on \<open>None\<close>. The test of line 157
  evaluates from left to right: the truth value of \<open>task.due_date\<close>, then the comparison
  with the naive \<open>now\<close>, which raises when the due date is aware, then the status.
\<close>

record Stats =
  total :: nat
  by_status :: "(string \<times> nat) list"
  by_priority :: "(string \<times> nat) list"
  overdue :: "nat option"

definition dict_incr :: "(string \<times> nat) list \<Rightarrow> string \<Rightarrow> (string \<times> nat) list" where
  "dict_incr d k = AList.update k ((case map_of d k of None \<Rightarrow> 0 | Some c \<Rightarrow> c) + 1) d"

fun truthy :: "due_value \<Rightarrow> bool" where
  "truthy (DueDatetime d) = True"
| "truthy (DueStr s) = (s \<noteq> [])"

fun due_lt :: "due_value \<Rightarrow> datetime \<Rightarrow> error + bool" where
  "due_lt (DueDatetime d) n = datetime_lt d n"
| "due_lt (DueStr s) n =
     Inl (TypeError ([CHR 0x27] @ ''<'' @ [CHR 0x27] @ '' not supported between instances of ''
            @ [CHR 0x27] @ ''str'' @ [CHR 0x27] @ '' and ''
            @ [CHR 0x27] @ ''datetime.datetime'' @ [CHR 0x27]))"

definition is_overdue :: "int \<Rightarrow> Task \<Rightarrow> error + bool" where
  "is_overdue now task =
     (case due_date task of
        None \<Rightarrow> Inr False
      | Some v \<Rightarrow>
          if \<not> truthy v then Inr False
          else (case due_lt v (Naive now) of
                  Inl e \<Rightarrow> Inl e
                | Inr b \<Rightarrow> Inr (b \<and> status task \<noteq> Some COMPLETED)))"

definition no_value :: error where
  "no_value = AttributeError ([CHR 0x27] @ ''NoneType'' @ [CHR 0x27]
                 @ '' object has no attribute '' @ [CHR 0x27] @ ''value'' @ [CHR 0x27])"

fun stats_loop ::
  "int \<Rightarrow> Task list \<Rightarrow> (string \<times> nat) list \<times> (string \<times> nat) list \<times> nat
     \<Rightarrow> error + (string \<times> nat) list \<times> (string \<times> nat) list \<times> nat" where
  "stats_loop now [] acc = Inr acc"
| "stats_loop now (task # rest) (bs, bp, od) =
     (case status task of
        None \<Rightarrow> Inl no_value
      | Some s \<Rightarrow>
          (case priority task of
             None \<Rightarrow> Inl no_value
           | Some p \<Rightarrow>
               (case is_overdue now task of
                  Inl e \<Rightarrow> Inl e
                | Inr b \<Rightarrow>
                    stats_loop now rest
                      (dict_incr bs (status_value s), dict_incr bp (priority_value p),
                       if b then od + 1 else od))))"

definition get_stats :: "int \<Rightarrow> TaskStorage \<Rightarrow> error + Stats" where
  "get_stats now st =
     (let ts = map snd (tasks st); n = length ts
      in if n = 0 then Inr \<lparr>total = 0, by_status = [], by_priority = [], overdue = None\<rparr>
         else (case stats_loop now ts ([], [], 0) of
                 Inl e \<Rightarrow> Inl e
               | Inr (bs, bp, od) \<Rightarrow>
                   Inr \<lparr>total = n, by_status = bs, by_priority = bp, overdue = Some od\<rparr>))"

section \<open>The tools (lines 176-258)\<close>

text \<open>
  The tools carry the names of the store's methods in the source; here they are prefixed
  with \<open>tool_\<close>. Each returns an envelope: a dict with \<open>success\<close> true and a payload,
  or with \<open>success\<close> false and the key \<open>error\<close>. \<open>error_str\<close> is \<open>str(e)\<close>, and
  \<open>format_str\<close> is the text an f-string gives for an optional string. In \<open>list_tasks\<close>
  the handler for \<open>ValueError\<close> comes before the handler for every other exception.
\<close>

datatype envelope =
  TaskEnvelope Task string
| TasksEnvelope "Task list" nat
| StatsEnvelope Stats
| ErrorEnvelope string

fun error_str :: "error \<Rightarrow> string" where
  "error_str (ValueError msg) = msg"
| "error_str (TypeError msg) = msg"
| "error_str (KeyError msg) = msg"
| "error_str (AttributeError msg) = msg"

fun format_str :: "string option \<Rightarrow> string" where
  "format_str None = ''None''"
| "format_str (Some s) = s"

definition tool_create_task ::
  "parser \<Rightarrow> int \<Rightarrow> TaskStorage \<Rightarrow> CreateTaskRequest \<Rightarrow> envelope \<times> TaskStorage" where
  "tool_create_task fromiso now st request =
     (case create_task fromiso now st request of
        (Inr task, st') \<Rightarrow>
          (TaskEnvelope task
             (''Task '' @ [CHR 0x27] @ format_str (title task) @ [CHR 0x27]
                @ '' created successfully with ID '' @ task_id task), st')
      | (Inl e, st') \<Rightarrow> (ErrorEnvelope (error_str e), st'))"

definition task_status :: "string option \<Rightarrow> error + TaskStatus option" where
  "task_status status_arg =
     (case status_arg of
        None \<Rightarrow> Inr None
      | Some s \<Rightarrow>
          if s \<noteq> [] then
            (case TaskStatus_of_value s of
               None \<Rightarrow> Inl (ValueError ([CHR 0x27] @ s @ [CHR 0x27] @ '' is not a valid TaskStatus''))
             | Some v \<Rightarrow> Inr (Some v))
          else Inr None)"

fun list_tasks_except :: "string option \<Rightarrow> error \<Rightarrow> envelope" where
  "list_tasks_except status_arg (ValueError msg) =
     ErrorEnvelope (''Invalid status: '' @ format_str status_arg)"
| "list_tasks_except status_arg e = ErrorEnvelope (error_str e)"

definition tool_list_tasks :: "TaskStorage \<Rightarrow> string option \<Rightarrow> string option \<Rightarrow> envelope" where
  "tool_list_tasks st status_arg tag =
     (case task_status status_arg of
        Inl e \<Rightarrow> list_tasks_except status_arg e
      | Inr ts \<Rightarrow>
          (case list_tasks st ts tag of
             Inl e \<Rightarrow> list_tasks_except status_arg e
           | Inr found \<Rightarrow> TasksEnvelope found (length found)))"

definition tool_get_task_stats :: "int \<Rightarrow> TaskStorage \<Rightarrow> envelope" where
  "tool_get_task_stats now st =
     (case get_stats now st of
        Inr stats \<Rightarrow> StatsEnvelope stats
      | Inl e \<Rightarrow> ErrorEnvelope (error_str e))"

section \<open>Sequences of operations\<close>

text \<open>
  A history of the store is a list of calls, each with the reading of the clock at the
  call. \<open>run\<close> is the store after a history, and \<open>assigned_ids\<close> lists the ids of the
  tasks that the successful calls of \<open>create_task\<close> returned, in order.
\<close>

datatype operation =
  Create CreateTaskRequest
| Update string UpdateTaskRequest
| Delete string

fun step :: "parser \<Rightarrow> TaskStorage \<Rightarrow> int \<times> operation \<Rightarrow> TaskStorage" where
  "step fromiso st (now, Create request) = snd (create_task fromiso now st request)"
| "step fromiso st (now, Update tid updates) = snd (update_task fromiso now st tid updates)"
| "step fromiso st (now, Delete tid) = snd (delete_task st tid)"

definition run :: "parser \<Rightarrow> TaskStorage \<Rightarrow> (int \<times> operation) list \<Rightarrow> TaskStorage" where
  "run fromiso st ops = foldl (step fromiso) st ops"

fun created_id :: "parser \<Rightarrow> TaskStorage \<Rightarrow> int \<times> operation \<Rightarrow> string list" where
  "created_id fromiso st (now, Create request) =
     (case fst (create_task fromiso now st request) of
        Inr task \<Rightarrow> [task_id task]
      | Inl e \<Rightarrow> [])"
| "created_id fromiso st (now, Update tid updates) = []"
| "created_id fromiso st (now, Delete tid) = []"

fun assigned_ids :: "parser \<Rightarrow> TaskStorage \<Rightarrow> (int \<times> operation) list \<Rightarrow> string list" where
  "assigned_ids fromiso st [] = []"
| "assigned_ids fromiso st (c # ops) =
     created_id fromiso st c @ assigned_ids fromiso (step fromiso st c) ops"



section \<open>Requests and a parser for the examples\<close>

text \<open>
  \<open>empty_patch\<close> is \<open>UpdateTaskRequest()\<close>, \<open>complete_patch\<close> is
  \<open>UpdateTaskRequest(status=TaskStatus.COMPLETED)\<close> (line 247), and
  \<open>simple_request t p d\<close> is \<open>CreateTaskRequest(title=t, priority=p, due_date=d)\<close>.
  \<open>example_fromiso\<close> has the values of \<open>datetime.fromisoformat\<close> at the two well-formed
  strings the examples use (midnight of 1 January 2020, with the offset of UTC and
  without an offset) and rejects every other string; the examples give it no other
  string than these two and \<open>not-a-date\<close>.
\<close>

definition empty_patch :: UpdateTaskRequest where
  "empty_patch = \<lparr>u_title = None, u_description = None, u_status = None,
                   u_priority = None, u_due_date = None, u_tags = None\<rparr>"

definition complete_patch :: UpdateTaskRequest where
  "complete_patch = empty_patch\<lparr>u_status := Some (Some COMPLETED)\<rparr>"

definition simple_request :: "string \<Rightarrow> Priority \<Rightarrow> string option \<Rightarrow> CreateTaskRequest" where
  "simple_request t p d =
     \<lparr>c_title = t, c_description = None, c_priority = p, c_due_date = d, c_tags = []\<rparr>"

definition example_fromiso :: parser where
  "example_fromiso s =
     (if s = ''2020-01-01T00:00:00+00:00'' then Inr (Aware 1577836800000000)
      else if s = ''2020-01-01T00:00:00'' then Inr (Naive 1577836800000000)
      else Inl (''Invalid isoformat string: '' @ [CHR 0x27] @ s @ [CHR 0x27]))"

definition example_store :: TaskStorage where
  "example_store = run example_fromiso TaskStorage_init [(5, Create (simple_request ''a'' HIGH None))]"

definition example_task :: Task where
  "example_task = \<lparr>task_id = ''1'', title = Some ''a'', description = None,
                    status = Some TODO, priority = Some HIGH, created_at = 5,
                    due_date = None, completed_at = None, tags = Some []\<rparr>"

definition fresh_task :: "string \<Rightarrow> string \<Rightarrow> Priority \<Rightarrow> int \<Rightarrow> Task" where
  "fresh_task i t p n =
     \<lparr>task_id = i, title = Some t, description = None, status = Some TODO,
      priority = Some p, created_at = n, due_date = None, completed_at = None,
      tags = Some []\<rparr>"

section \<open>Lemmas: decimal rendering\<close>

lemma digit_char_inj: "a < 10 \<Longrightarrow> b < 10 \<Longrightarrow> digit_char a = digit_char b \<Longrightarrow> a = b"
proof -
  assume a: "a < 10" and b: "b < 10" and e: "digit_char a = digit_char b"
  from a have "a \<in> {0,1,2,3,4,5,6,7,8,9}" by auto
  moreover from b have "b \<in> {0,1,2,3,4,5,6,7,8,9}" by auto
  ultimately show ?thesis using e by (auto simp: digit_char_def)
qed

lemma digit_char_not_minus: "d < 10 \<Longrightarrow> digit_char d \<noteq> CHR ''-''"
proof -
  assume "d < 10"
  then have "d \<in> {0,1,2,3,4,5,6,7,8,9}" by auto
  then show ?thesis by (auto simp: digit_char_def)
qed

lemma str_nat_small: "n < 10 \<Longrightarrow> str_nat n = [digit_char n]"
  by (simp add: str_nat.simps)

lemma str_nat_large: "\<not> n < 10 \<Longrightarrow> str_nat n = str_nat (n div 10) @ [digit_char (n mod 10)]"
  by (subst str_nat.simps) simp

lemma str_nat_nonempty: "str_nat n \<noteq> []" "[] \<noteq> str_nat n"
  by (subst str_nat.simps, simp)+

lemma str_nat_hd_not_minus: "hd (str_nat n) \<noteq> CHR ''-''"
proof (induction n rule: str_nat.induct)
  case (1 n)
  show ?case
  proof (cases "n < 10")
    case True
    then show ?thesis by (simp add: str_nat_small digit_char_not_minus)
  next
    case False
    with 1 show ?thesis by (simp add: str_nat_large str_nat_nonempty)
  qed
qed

lemma str_nat_inj: "str_nat n = str_nat m \<Longrightarrow> n = m"
proof (induction n arbitrary: m rule: str_nat.induct)
  case (1 n)
  show ?case
  proof (cases "n < 10")
    case True
    note n = this
    show ?thesis
    proof (cases "m < 10")
      case True
      with n 1(2) show ?thesis by (simp add: str_nat_small digit_char_inj)
    next
      case False
      with n 1(2) show ?thesis by (simp add: str_nat_small str_nat_large str_nat_nonempty)
    qed
  next
    case False
    note n = this
    show ?thesis
    proof (cases "m < 10")
      case True
      with n 1(2) show ?thesis by (simp add: str_nat_small str_nat_large str_nat_nonempty)
    next
      case False
      with n 1(2) have e: "str_nat (n div 10) = str_nat (m div 10)"
        and d: "digit_char (n mod 10) = digit_char (m mod 10)"
        by (simp_all add: str_nat_large)
      from 1(1) [OF n e] have "n div 10 = m div 10" .
      moreover from d have "n mod 10 = m mod 10" by (simp add: digit_char_inj)
      ultimately show ?thesis by (metis div_mult_mod_eq)
    qed
  qed
qed

lemma str_int_inj: "str_int i = str_int j \<Longrightarrow> i = j"
proof -
  assume e: "str_int i = str_int j"
  have neg: "CHR ''-'' # xs \<noteq> str_nat n" for xs n
    using str_nat_hd_not_minus [of n] by (cases "str_nat n") (auto simp: str_nat_nonempty)
  show ?thesis
  proof (cases "i < 0")
    case True
    note i = this
    show ?thesis
    proof (cases "j < 0")
      case True
      with i e have "str_nat (nat (- i)) = str_nat (nat (- j))" by (simp add: str_int_def)
      then have "nat (- i) = nat (- j)" by (rule str_nat_inj)
      with i True show ?thesis by simp
    next
      case False
      with i e neg show ?thesis by (simp add: str_int_def)
    qed
  next
    case False
    note i = this
    show ?thesis
    proof (cases "j < 0")
      case True
      with i e neg [of "str_nat (nat (- j))" "nat i"] show ?thesis by (simp add: str_int_def)
    next
      case False
      with i e have "str_nat (nat i) = str_nat (nat j)" by (simp add: str_int_def)
      then have "nat i = nat j" by (rule str_nat_inj)
      with i False show ?thesis by simp
    qed
  qed
qed

lemma str_int_1: "str_int 1 = ''1''" and str_int_2: "str_int 2 = ''2''" and str_int_3: "str_int 3 = ''3''"
  by (simp_all add: str_int_def str_nat.simps digit_char_def)

section \<open>Lemmas: \<open>update_task\<close>\<close>

lemma update_loop_error:
  "update_loop fromiso now task (model_dump u) [] = Inl e \<longleftrightarrow>
     (\<exists>s. u_due_date u = Some (Some s) \<and> s \<noteq> [] \<and> parse_due fromiso s = Inl e)"
  unfolding model_dump_def
  by (cases "u_title u"; cases "u_description u"; cases "u_status u"; cases "u_priority u";
      cases "u_due_date u"; cases "u_tags u")
     (auto split: sum.splits option.splits)

lemma update_loop_result:
  "update_loop fromiso now task (model_dump u) [] = Inr ud \<Longrightarrow>
   foldl setattr task ud =
     task\<lparr>title := (case u_title u of None \<Rightarrow> title task | Some v \<Rightarrow> v),
          description := (case u_description u of None \<Rightarrow> description task | Some v \<Rightarrow> v),
          status := (case u_status u of None \<Rightarrow> status task | Some v \<Rightarrow> v),
          priority := (case u_priority u of None \<Rightarrow> priority task | Some v \<Rightarrow> v),
          due_date := (case u_due_date u of
                         None \<Rightarrow> due_date task
                       | Some None \<Rightarrow> None
                       | Some (Some s) \<Rightarrow>
                           if s \<noteq> [] then
                             (case parse_due fromiso s of
                                Inl e \<Rightarrow> due_date task
                              | Inr d \<Rightarrow> Some (DueDatetime d))
                           else Some (DueStr s)),
          completed_at := (if u_status u = Some (Some COMPLETED)
                              \<and> status task \<noteq> Some COMPLETED
                           then Some now else completed_at task),
          tags := (case u_tags u of None \<Rightarrow> tags task | Some v \<Rightarrow> v)\<rparr>"
  unfolding model_dump_def
  by (cases "u_title u"; cases "u_description u"; cases "u_status u"; cases "u_priority u";
      cases "u_due_date u"; cases "u_tags u")
     (auto split: sum.splits option.splits)

lemma update_task_unknown:
  "map_of (tasks st) tid = None \<Longrightarrow> update_task fromiso now st tid u = (Inr None, st)"
  by (simp add: update_task_def)

lemma update_task_error:
  assumes "map_of (tasks st) tid = Some task"
  shows "fst (update_task fromiso now st tid u) = Inl e \<longleftrightarrow>
           (\<exists>s. u_due_date u = Some (Some s) \<and> s \<noteq> [] \<and> parse_due fromiso s = Inl e)"
  using assms update_loop_error [of fromiso now task u e]
  by (auto simp: update_task_def Let_def split: sum.splits)

lemma update_task_error_store:
  "fst (update_task fromiso now st tid u) = Inl e \<Longrightarrow> snd (update_task fromiso now st tid u) = st"
  by (auto simp: update_task_def Let_def split: sum.splits option.splits)

lemma update_task_success:
  assumes "map_of (tasks st) tid = Some task"
    and "update_task fromiso now st tid u = (Inr r, st')"
  shows "\<exists>task'. r = Some task' \<and> st' = st\<lparr>tasks := AList.update tid task' (tasks st)\<rparr>
           \<and> task_id task' = task_id task \<and> created_at task' = created_at task
           \<and> status task' = (case u_status u of None \<Rightarrow> status task | Some v \<Rightarrow> v)
           \<and> completed_at task' =
                (if u_status u = Some (Some COMPLETED) \<and> status task \<noteq> Some COMPLETED
                 then Some now else completed_at task)
           \<and> title task' = (case u_title u of None \<Rightarrow> title task | Some v \<Rightarrow> v)
           \<and> description task' =
                (case u_description u of None \<Rightarrow> description task | Some v \<Rightarrow> v)
           \<and> priority task' = (case u_priority u of None \<Rightarrow> priority task | Some v \<Rightarrow> v)
           \<and> tags task' = (case u_tags u of None \<Rightarrow> tags task | Some v \<Rightarrow> v)
           \<and> due_date task' =
                (case u_due_date u of
                   None \<Rightarrow> due_date task
                 | Some None \<Rightarrow> None
                 | Some (Some s) \<Rightarrow>
                     if s \<noteq> [] then
                       (case parse_due fromiso s of
                          Inl e \<Rightarrow> due_date task
                        | Inr d \<Rightarrow> Some (DueDatetime d))
                     else Some (DueStr s))"
proof -
  from assms obtain ud where ud: "update_loop fromiso now task (model_dump u) [] = Inr ud"
    and r: "r = Some (foldl setattr task ud)"
    and st': "st' = st\<lparr>tasks := AList.update tid (foldl setattr task ud) (tasks st)\<rparr>"
    by (auto simp: update_task_def Let_def split: sum.splits)
  show ?thesis
    unfolding r st' update_loop_result [OF ud] by simp
qed

lemmas example_defs =
  run_def TaskStorage_init_def simple_request_def empty_patch_def complete_patch_def
  create_task_def update_task_def delete_task_def get_task_def model_dump_def
  parse_due_def replace_Z_def example_fromiso_def example_store_def example_task_def fresh_task_def Let_def str_int_1 str_int_2 str_int_3

lemma get_task_update:
  "get_task (st\<lparr>tasks := AList.update tid task (tasks st)\<rparr>) tid = Some task"
  by (simp add: get_task_def update_conv')

lemma example_store_task: "get_task example_store ''1'' = Some example_task"
  by (simp add: example_defs)

section \<open>Patches, due dates and the tools\<close>

text \<open>
  C8. For every existing task, \<open>update_task\<close> with an empty patch (no field set)
  succeeds, returns the task with every field as it was, \<open>completed_at\<close> included, and
  leaves the store as it was.
\<close>

theorem update_task_empty_patch:
  assumes "get_task st tid = Some task"
  shows "update_task fromiso now st tid empty_patch = (Inr (Some task), st)"
  using assms
  by (simp add: update_task_def get_task_def empty_patch_def model_dump_def update_triv)

theorem update_task_empty_patch_witness:
  "get_task example_store ''1'' = Some example_task
   \<and> update_task example_fromiso 9 example_store ''1'' empty_patch
       = (Inr (Some example_task), example_store)"
  by (rule conjI [OF example_store_task update_task_empty_patch [OF example_store_task]])

text \<open>
  C3. For an existing task, a call of \<open>update_task\<close> either raises, only because the
  patch carries a non-empty due date that does not parse, and then leaves the store as it
  was, or it returns the stored task, and then: if the status was not completed and the
  patch sets it to completed, the task is completed and \<open>completed_at\<close> is the current
  time; if the patch does not include status, \<open>completed_at\<close> is unchanged (so a later
  update that does not touch status keeps the stamp); and if the status was completed
  already and the patch sets it to completed, \<open>completed_at\<close> is unchanged.
\<close>

theorem completed_at_stamped_once:
  assumes "get_task st tid = Some task"
  shows "case update_task fromiso now st tid u of
           (Inl e, st') \<Rightarrow>
              st' = st
              \<and> (\<exists>s. u_due_date u = Some (Some s) \<and> s \<noteq> [] \<and> parse_due fromiso s = Inl e)
         | (Inr r, st') \<Rightarrow>
              (\<exists>task'. r = Some task' \<and> get_task st' tid = Some task'
                 \<and> (status task \<noteq> Some COMPLETED \<and> u_status u = Some (Some COMPLETED) \<longrightarrow>
                      status task' = Some COMPLETED \<and> completed_at task' = Some now)
                 \<and> (u_status u = None \<longrightarrow> completed_at task' = completed_at task)
                 \<and> (status task = Some COMPLETED \<and> u_status u = Some (Some COMPLETED) \<longrightarrow>
                      completed_at task' = completed_at task))"
proof (cases "update_task fromiso now st tid u")
  case (Pair res st')
  from assms have m: "map_of (tasks st) tid = Some task" by (simp add: get_task_def)
  show ?thesis
  proof (cases res)
    case (Inl e)
    with Pair have f: "fst (update_task fromiso now st tid u) = Inl e" by simp
    from update_task_error_store [OF f] Pair have "st' = st" by simp
    moreover from f update_task_error [OF m] 
    have "\<exists>s. u_due_date u = Some (Some s) \<and> s \<noteq> [] \<and> parse_due fromiso s = Inl e" by blast
    ultimately show ?thesis using Pair Inl by simp
  next
    case (Inr r)
    with Pair have "update_task fromiso now st tid u = (Inr r, st')" by simp
    from update_task_success [OF m this] obtain task' where
      "r = Some task'" "st' = st\<lparr>tasks := AList.update tid task' (tasks st)\<rparr>"
      "status task' = (case u_status u of None \<Rightarrow> status task | Some v \<Rightarrow> v)"
      "completed_at task' =
                (if u_status u = Some (Some COMPLETED) \<and> status task \<noteq> Some COMPLETED
                 then Some now else completed_at task)"
      by blast
    then show ?thesis using Pair Inr by (simp add: get_task_update)
  qed
qed

theorem completed_at_stamped_once_witness:
  "get_task example_store ''1'' = Some example_task
   \<and> (case update_task example_fromiso 9 example_store ''1'' complete_patch of
         (Inl e, st') \<Rightarrow>
            st' = example_store
            \<and> (\<exists>s. u_due_date complete_patch = Some (Some s) \<and> s \<noteq> []
                     \<and> parse_due example_fromiso s = Inl e)
       | (Inr r, st') \<Rightarrow>
            (\<exists>task'. r = Some task' \<and> get_task st' ''1'' = Some task'
               \<and> (status example_task \<noteq> Some COMPLETED
                    \<and> u_status complete_patch = Some (Some COMPLETED) \<longrightarrow>
                    status task' = Some COMPLETED \<and> completed_at task' = Some 9)
               \<and> (u_status complete_patch = None \<longrightarrow> completed_at task' = completed_at example_task)
               \<and> (status example_task = Some COMPLETED
                    \<and> u_status complete_patch = Some (Some COMPLETED) \<longrightarrow>
                    completed_at task' = completed_at example_task)))"
  by (rule conjI [OF example_store_task completed_at_stamped_once [OF example_store_task]])

lemma replace_Z_not_a_date: "replace_Z ''not-a-date'' = ''not-a-date''"
  by (simp add: replace_Z_def)

text \<open>
  C10. If \<open>create_task\<close> is called with a non-empty due date that
  \<open>fromisoformat\<close> rejects, the tool returns an error envelope carrying the message
  of the exception, the task collection is unchanged, and the id counter has been
  incremented all the same: the next successful \<open>create_task\<close> assigns the id of
  \<open>next_id + 1\<close>, and the id of \<open>next_id\<close> is skipped. An empty due date is not
  parsed, whatever the parser does with it: the call does what it does with no due date,
  so it succeeds and stores the new task under the id of \<open>next_id\<close>, with no due date.
\<close>

theorem create_task_malformed_due_date:
  "(c_due_date request = Some s \<and> s \<noteq> [] \<and> fromiso (replace_Z s) = Inl msg \<longrightarrow>
      tool_create_task fromiso now st request
        = (ErrorEnvelope msg, st\<lparr>next_id := next_id st + 1\<rparr>)
      \<and> tasks (snd (tool_create_task fromiso now st request)) = tasks st
      \<and> next_id (snd (tool_create_task fromiso now st request)) = next_id st + 1
      \<and> (\<forall>fromiso' now' request' task' st'.
            create_task fromiso' now' (snd (tool_create_task fromiso now st request)) request'
              = (Inr task', st')
            \<longrightarrow> task_id task' = str_int (next_id st + 1)
                \<and> task_id task' \<noteq> str_int (next_id st)))
   \<and> (c_due_date request = Some [] \<longrightarrow>
        tool_create_task fromiso now st request
          = tool_create_task fromiso now st (request\<lparr>c_due_date := None\<rparr>)
        \<and> (\<exists>task. create_task fromiso now st request
                     = (Inr task, \<lparr>tasks = AList.update (str_int (next_id st)) task (tasks st),
                                   next_id = next_id st + 1\<rparr>)
                \<and> task_id task = str_int (next_id st) \<and> due_date task = None))"
proof -
  have malformed: "tool_create_task fromiso now st request
        = (ErrorEnvelope msg, st\<lparr>next_id := next_id st + 1\<rparr>)"
    if "c_due_date request = Some s" and "s \<noteq> []" and "fromiso (replace_Z s) = Inl msg"
    using that by (simp add: tool_create_task_def create_task_def parse_due_def Let_def)
  have n: "str_int (next_id st + 1) \<noteq> str_int (next_id st)"
    using str_int_inj [of "next_id st + 1" "next_id st"] by auto
  have next_one: "task_id task' = str_int (next_id st + 1)"
    if "create_task fromiso' now' (st\<lparr>next_id := next_id st + 1\<rparr>) request' = (Inr task', st')"
    for fromiso' now' request' task' st'
    using that by (auto simp: create_task_def Let_def split: sum.splits option.splits if_splits)
  have empty: "tool_create_task fromiso now st request
          = tool_create_task fromiso now st (request\<lparr>c_due_date := None\<rparr>)
        \<and> (\<exists>task. create_task fromiso now st request
                     = (Inr task, \<lparr>tasks = AList.update (str_int (next_id st)) task (tasks st),
                                   next_id = next_id st + 1\<rparr>)
                \<and> task_id task = str_int (next_id st) \<and> due_date task = None)"
    if "c_due_date request = Some []"
    using that by (simp add: tool_create_task_def create_task_def Let_def)
  from malformed n next_one empty show ?thesis by simp
qed

theorem create_task_malformed_due_date_witness:
  "c_due_date (simple_request ''a'' MEDIUM (Some ''not-a-date'')) = Some ''not-a-date''
   \<and> ''not-a-date'' \<noteq> []
   \<and> example_fromiso (replace_Z ''not-a-date'')
       = Inl (''Invalid isoformat string: '' @ [CHR 0x27] @ ''not-a-date'' @ [CHR 0x27])
   \<and> tool_create_task example_fromiso 5 TaskStorage_init (simple_request ''a'' MEDIUM (Some ''not-a-date''))
       = (ErrorEnvelope (''Invalid isoformat string: '' @ [CHR 0x27] @ ''not-a-date'' @ [CHR 0x27]),
          \<lparr>tasks = [], next_id = 2\<rparr>)
   \<and> fst (create_task example_fromiso 6
         (snd (tool_create_task example_fromiso 5 TaskStorage_init
                 (simple_request ''a'' MEDIUM (Some ''not-a-date''))))
         (simple_request ''b'' LOW None))
       = Inr (fresh_task ''2'' ''b'' LOW 6)
   \<and> c_due_date (simple_request ''c'' HIGH (Some [])) = Some []
   \<and> tool_create_task example_fromiso 7 TaskStorage_init (simple_request ''c'' HIGH (Some []))
       = tool_create_task example_fromiso 7 TaskStorage_init (simple_request ''c'' HIGH None)
   \<and> fst (create_task example_fromiso 7 TaskStorage_init (simple_request ''c'' HIGH (Some [])))
       = Inr (fresh_task ''1'' ''c'' HIGH 7)"
proof -
  have h1: "c_due_date (simple_request ''a'' MEDIUM (Some ''not-a-date'')) = Some ''not-a-date''"
    by (simp add: simple_request_def)
  have h2: "''not-a-date'' \<noteq> []" by simp
  have h3: "example_fromiso (replace_Z ''not-a-date'')
       = Inl (''Invalid isoformat string: '' @ [CHR 0x27] @ ''not-a-date'' @ [CHR 0x27])"
    by (simp add: replace_Z_not_a_date example_fromiso_def)
  have h4: "c_due_date (simple_request ''c'' HIGH (Some [])) = Some []"
    by (simp add: simple_request_def)
  from create_task_malformed_due_date
    [where fromiso = example_fromiso and now = 5 and st = TaskStorage_init
       and request = "simple_request ''a'' MEDIUM (Some ''not-a-date'')" and s = "''not-a-date''"
       and msg = "''Invalid isoformat string: '' @ [CHR 0x27] @ ''not-a-date'' @ [CHR 0x27]"]
    h1 h2 h3
  have t: "tool_create_task example_fromiso 5 TaskStorage_init
             (simple_request ''a'' MEDIUM (Some ''not-a-date''))
           = (ErrorEnvelope (''Invalid isoformat string: '' @ [CHR 0x27] @ ''not-a-date'' @ [CHR 0x27]),
              TaskStorage_init\<lparr>next_id := next_id TaskStorage_init + 1\<rparr>)"
    by blast
  from create_task_malformed_due_date
    [where fromiso = example_fromiso and now = 7 and st = TaskStorage_init
       and request = "simple_request ''c'' HIGH (Some [])"] h4
  have e: "tool_create_task example_fromiso 7 TaskStorage_init (simple_request ''c'' HIGH (Some []))
       = tool_create_task example_fromiso 7 TaskStorage_init
           ((simple_request ''c'' HIGH (Some []))\<lparr>c_due_date := None\<rparr>)"
    by blast
  show ?thesis
    unfolding t using h1 h3 h4 e
    by (simp add: TaskStorage_init_def create_task_def simple_request_def fresh_task_def
          Let_def str_int_1 str_int_2)
qed

text \<open>
  Without the restriction to a non-empty string the statement fails: \<open>fromisoformat\<close>
  rejects the empty string, but line 74 tests the truth value of the due date first, so
  \<open>create_task\<close> with an empty due date does not parse it and stores a task with no
  due date.
\<close>

theorem create_task_empty_due_date_succeeds:
  "example_fromiso (replace_Z '''') = Inl (''Invalid isoformat string: '' @ [CHR 0x27, CHR 0x27])
   \<and> tool_create_task example_fromiso 5 TaskStorage_init (simple_request ''a'' MEDIUM (Some ''''))
       = (TaskEnvelope (fresh_task ''1'' ''a'' MEDIUM 5) ''Task 'a' created successfully with ID 1'',
          \<lparr>tasks = [(''1'', fresh_task ''1'' ''a'' MEDIUM 5)], next_id = 2\<rparr>)"
  by (simp add: tool_create_task_def example_defs)

lemma tag_filter_error: "tag_filter g ts = Inl e \<Longrightarrow> \<exists>m. e = TypeError m"
  by (induction ts arbitrary: e) (auto split: option.splits sum.splits)

lemma list_keys_error: "list_keys ts = Inl e \<Longrightarrow> \<exists>m. e = KeyError m"
  by (induction ts arbitrary: e) (auto simp: list_key_def split: option.splits sum.splits)

lemma list_tasks_error:
  "list_tasks st status_filter tag = Inl e \<Longrightarrow> (\<exists>m. e = TypeError m) \<or> (\<exists>m. e = KeyError m)"
  by (auto simp: list_tasks_def Let_def split: sum.splits option.splits if_splits
           dest: tag_filter_error list_keys_error)

text \<open>
  C9. For every non-empty status string that is not the value of a member of
  \<open>TaskStatus\<close>, the tool \<open>list_tasks\<close> returns the error envelope with the text
  \<open>Invalid status: \<close> followed by the string, and no task list, whatever the store
  holds. An empty status string is no status filter: the tool answers as it does when no
  status is given.
\<close>

theorem list_tasks_invalid_status:
  "(s \<noteq> [] \<and> TaskStatus_of_value s = None \<longrightarrow>
      tool_list_tasks st (Some s) tag = ErrorEnvelope (''Invalid status: '' @ s))
   \<and> tool_list_tasks st (Some []) tag = tool_list_tasks st None tag"
proof -
  have "list_tasks_except (Some []) e = list_tasks_except None e"
    if "list_tasks st None tag = Inl e" for e
    using list_tasks_error [OF that] by auto
  then show ?thesis
    by (auto simp: tool_list_tasks_def task_status_def split: sum.splits)
qed

theorem list_tasks_invalid_status_witness:
  "''bogus'' \<noteq> [] \<and> TaskStatus_of_value ''bogus'' = None
   \<and> tool_list_tasks example_store (Some ''bogus'') None = ErrorEnvelope ''Invalid status: bogus''
   \<and> tool_list_tasks example_store (Some []) None = tool_list_tasks example_store None None"
proof -
  have h1: "''bogus'' \<noteq> []" by simp
  have h2: "TaskStatus_of_value ''bogus'' = None" by (simp add: TaskStatus_of_value_def)
  from h1 h2 list_tasks_invalid_status [of "''bogus''" example_store None] show ?thesis by simp
qed

text \<open>
  Without the restriction to a non-empty string the statement fails: line 230 converts
  the status only when it is true, so an empty status string is no filter at all and the
  tool returns every task.
\<close>

theorem list_tasks_empty_status_succeeds:
  "TaskStatus_of_value '''' = None
   \<and> tool_list_tasks example_store (Some '''') None = TasksEnvelope [example_task] 1"
  by (simp add: TaskStatus_of_value_def tool_list_tasks_def task_status_def list_tasks_def
        list_key_def example_defs)

text \<open>
  For a non-empty due date, \<open>create_task\<close> and \<open>update_task\<close> evaluate the same
  expression: they raise the same error on the same strings and store the same datetime.
\<close>

lemma due_date_nonempty_alike:
  assumes "c_due_date request = Some s" and "u_due_date u = Some (Some s)" and "s \<noteq> []"
    and "map_of (tasks st') tid = Some task"
  shows "(fst (create_task fromiso now st request) = Inl e
            \<longleftrightarrow> fst (update_task fromiso now' st' tid u) = Inl e)
         \<and> (fst (create_task fromiso now st request) = Inr t
              \<and> fst (update_task fromiso now' st' tid u) = Inr r
            \<longrightarrow> (\<exists>t'. r = Some t' \<and> due_date t' = due_date t
                        \<and> (\<exists>d. parse_due fromiso s = Inr d \<and> due_date t = Some (DueDatetime d))))"
proof -
  have c: "fst (create_task fromiso now st request) = Inl e \<longleftrightarrow> parse_due fromiso s = Inl e"
    using assms(1,3) by (auto simp: create_task_def Let_def split: sum.splits)
  have u: "fst (update_task fromiso now' st' tid u) = Inl e \<longleftrightarrow> parse_due fromiso s = Inl e"
    using update_task_error [OF assms(4), of fromiso now' u e] assms(2,3) by auto
  have d: "\<exists>t'. r = Some t' \<and> due_date t' = due_date t
                        \<and> (\<exists>d. parse_due fromiso s = Inr d \<and> due_date t = Some (DueDatetime d))"
    if ct: "fst (create_task fromiso now st request) = Inr t"
      and ut: "fst (update_task fromiso now' st' tid u) = Inr r"
  proof -
    from ct assms(1,3) obtain d where p: "parse_due fromiso s = Inr d"
      and dt: "due_date t = Some (DueDatetime d)"
      by (auto simp: create_task_def Let_def split: sum.splits)
    from ut have "update_task fromiso now' st' tid u = (Inr r, snd (update_task fromiso now' st' tid u))"
      by (metis prod.collapse)
    from update_task_success [OF assms(4) this] obtain t' where "r = Some t'"
      and "due_date t' =
                (case u_due_date u of
                   None \<Rightarrow> due_date task
                 | Some None \<Rightarrow> None
                 | Some (Some s) \<Rightarrow>
                     if s \<noteq> [] then
                       (case parse_due fromiso s of
                          Inl e \<Rightarrow> due_date task
                        | Inr d \<Rightarrow> Some (DueDatetime d))
                     else Some (DueStr s))"
      by blast
    with assms(2,3) p dt show ?thesis by simp
  qed
  from c u d show ?thesis by blast
qed

text \<open>
  C7. The due date of a patch is meant to be treated as \<open>create_task\<close> treats it. At
  the empty string the two differ: neither parses it and neither fails, but
  \<open>create_task\<close> leaves \<open>due_date\<close> unset while \<open>update_task\<close> takes the generic
  branch of line 106 and stores the empty string itself in \<open>due_date\<close>.
\<close>

theorem update_task_empty_due_date_stored:
  "map_sum id due_date
     (fst (create_task example_fromiso 9 example_store (simple_request ''b'' LOW (Some ''''))))
     = Inr None
   \<and> map_sum id (map_option due_date)
       (fst (update_task example_fromiso 9 example_store ''1'' (empty_patch\<lparr>u_due_date := Some (Some '''')\<rparr>)))
     = Inr (Some (Some (DueStr '''')))"
  by (simp add: example_defs)

section \<open>Histories: completion stamps and ids\<close>



lemma create_task_cases:
  "(\<exists>e. create_task fromiso now st request = (Inl e, st\<lparr>next_id := next_id st + 1\<rparr>))
   \<or> (\<exists>task. create_task fromiso now st request
               = (Inr task, \<lparr>tasks = AList.update (str_int (next_id st)) task (tasks st),
                             next_id = next_id st + 1\<rparr>)
         \<and> task_id task = str_int (next_id st) \<and> status task = Some TODO
         \<and> completed_at task = None)"
  by (auto simp: create_task_def Let_def split: sum.splits option.splits)














lemma step_next_id: "next_id st \<le> next_id (step fromiso st c)"
proof (cases c)
  case (Pair now opn)
  show ?thesis
  proof (cases opn)
    case (Create request)
    from create_task_cases [of fromiso now st request] show ?thesis
      unfolding Pair Create by auto
  next
    case (Update tid u)
    show ?thesis unfolding Pair Update
      by (auto simp: update_task_def Let_def split: option.splits sum.splits)
  next
    case (Delete tid)
    show ?thesis unfolding Pair Delete by (simp add: delete_task_def)
  qed
qed

lemma created_id_cases:
  "created_id fromiso st c = []
   \<or> (created_id fromiso st c = [str_int (next_id st)]
       \<and> next_id (step fromiso st c) = next_id st + 1)"
proof (cases c)
  case (Pair now opn)
  show ?thesis
  proof (cases opn)
    case (Create request)
    from create_task_cases [of fromiso now st request] show ?thesis
      unfolding Pair Create by auto
  qed (simp_all add: Pair)
qed

lemma update_task_store_cases:
  "snd (update_task fromiso now st tid u) = st
   \<or> (\<exists>task task'. map_of (tasks st) tid = Some task
         \<and> snd (update_task fromiso now st tid u) = st\<lparr>tasks := AList.update tid task' (tasks st)\<rparr>)"
proof (cases "map_of (tasks st) tid")
  case None
  then show ?thesis by (simp add: update_task_unknown)
next
  case (Some task)
  then show ?thesis
    by (cases "update_loop fromiso now task (model_dump u) []")
       (auto simp: update_task_def Let_def)
qed

lemma update_task_keys:
  "fst ` set (tasks (snd (update_task fromiso now st tid u))) = fst ` set (tasks st)"
proof -
  from update_task_store_cases [of fromiso now st tid u] show ?thesis
  proof (elim disjE exE conjE)
    fix task task'
    assume m: "map_of (tasks st) tid = Some task"
      and s: "snd (update_task fromiso now st tid u) = st\<lparr>tasks := AList.update tid task' (tasks st)\<rparr>"
    from m have "tid \<in> fst ` set (tasks st)" by (metis map_of_SomeD fst_conv image_eqI)
    then show ?thesis unfolding s by (simp add: dom_update insert_absorb)
  qed simp
qed

lemma step_keys:
  "fst ` set (tasks (step fromiso st c)) \<subseteq> fst ` set (tasks st) \<union> set (created_id fromiso st c)"
proof (cases c)
  case (Pair now opn)
  show ?thesis
  proof (cases opn)
    case (Create request)
    from create_task_cases [of fromiso now st request] show ?thesis
    proof (elim disjE exE conjE)
      fix e
      assume "create_task fromiso now st request = (Inl e, st\<lparr>next_id := next_id st + 1\<rparr>)"
      then show ?thesis unfolding Pair Create by simp
    next
      fix task
      assume c: "create_task fromiso now st request
               = (Inr task, \<lparr>tasks = AList.update (str_int (next_id st)) task (tasks st),
                             next_id = next_id st + 1\<rparr>)"
        and i: "task_id task = str_int (next_id st)"
      show ?thesis unfolding Pair Create using c i by (simp add: dom_update)
    qed
  next
    case (Update tid u)
    show ?thesis unfolding Pair Update by (simp add: update_task_keys)
  next
    case (Delete tid)
    from dom_delete_subset [of tid "tasks st"] show ?thesis
      unfolding Pair Delete by (auto simp: delete_task_def)
  qed
qed

lemma assigned_ids_from:
  "\<exists>ns. assigned_ids fromiso st ops = map str_int ns \<and> sorted_wrt (<) ns
        \<and> (\<forall>n\<in>set ns. next_id st \<le> n)"
proof (induction ops arbitrary: st)
  case Nil
  show ?case by simp
next
  case (Cons c ops)
  from Cons.IH [of "step fromiso st c"] obtain ns where
    ns: "assigned_ids fromiso (step fromiso st c) ops = map str_int ns"
    and sorted: "sorted_wrt (<) ns"
    and lower: "\<forall>n\<in>set ns. next_id (step fromiso st c) \<le> n"
    by blast
  from created_id_cases [of fromiso st c] show ?case
  proof (elim disjE conjE)
    assume "created_id fromiso st c = []"
    moreover from lower step_next_id [of st fromiso c] have "\<forall>n\<in>set ns. next_id st \<le> n"
      by fastforce
    ultimately show ?thesis using ns sorted by auto
  next
    assume c: "created_id fromiso st c = [str_int (next_id st)]"
      and n: "next_id (step fromiso st c) = next_id st + 1"
    from lower n have "\<forall>n\<in>set ns. next_id st < n" by fastforce
    with sorted have "sorted_wrt (<) (next_id st # ns)" by simp
    moreover have "assigned_ids fromiso st (c # ops) = map str_int (next_id st # ns)"
      using c ns by simp
    moreover from \<open>\<forall>n\<in>set ns. next_id st < n\<close>
    have "\<forall>n\<in>set (next_id st # ns). next_id st \<le> n" by fastforce
    ultimately show ?thesis by blast
  qed
qed

lemma run_keys:
  "fst ` set (tasks (run fromiso st ops)) \<subseteq> fst ` set (tasks st) \<union> set (assigned_ids fromiso st ops)"
proof (induction ops arbitrary: st)
  case Nil
  show ?case by (simp add: run_def)
next
  case (Cons c ops)
  from Cons.IH [of "step fromiso st c"] step_keys [of fromiso st c]
  show ?case by (auto simp: run_def)
qed

lemma distinct_map_str_int: "sorted_wrt (<) (ns :: int list) \<Longrightarrow> distinct (map str_int ns)"
proof -
  assume "sorted_wrt (<) ns"
  then have "distinct ns" by (simp add: strict_sorted_iff)
  moreover have "inj_on str_int (set ns)" by (auto intro: inj_onI dest: str_int_inj)
  ultimately show ?thesis by (simp add: distinct_map)
qed

text \<open>
  C6. For every history of creates, updates and deletes that starts from the empty store,
  the ids returned by the successful creates are, in order, the decimal renderings of a
  strictly increasing sequence of counter values (all at least 1), they are pairwise
  distinct as strings, and every key of the store is one of them. So no id is assigned
  twice, whatever was deleted in between.
\<close>

theorem assigned_ids_distinct_increasing:
  "(\<exists>ns. assigned_ids fromiso TaskStorage_init ops = map str_int ns \<and> sorted_wrt (<) ns
         \<and> list_all (\<lambda>n. 1 \<le> n) ns)
   \<and> distinct (assigned_ids fromiso TaskStorage_init ops)
   \<and> fst ` set (tasks (run fromiso TaskStorage_init ops))
        \<subseteq> set (assigned_ids fromiso TaskStorage_init ops)"
proof -
  from assigned_ids_from [of fromiso TaskStorage_init ops] obtain ns where
    ns: "assigned_ids fromiso TaskStorage_init ops = map str_int ns"
    and sorted: "sorted_wrt (<) ns" and lower: "\<forall>n\<in>set ns. 1 \<le> n"
    by (auto simp: TaskStorage_init_def)
  from sorted have "distinct (map str_int ns)" by (rule distinct_map_str_int)
  moreover from run_keys [of fromiso TaskStorage_init ops]
  have "fst ` set (tasks (run fromiso TaskStorage_init ops))
        \<subseteq> set (assigned_ids fromiso TaskStorage_init ops)"
    by (simp add: TaskStorage_init_def)
  ultimately show ?thesis using ns sorted lower by (auto simp: list_all_iff)
qed

text \<open>
  An example: the id of a deleted task is not assigned again, and a failed create
  consumes an id.
\<close>

lemma assigned_ids_example:
  "assigned_ids example_fromiso TaskStorage_init
     [(1, Create (simple_request ''a'' LOW None)),
      (2, Delete ''1''),
      (3, Create (simple_request ''b'' LOW (Some ''not-a-date''))),
      (4, Create (simple_request ''c'' LOW None))]
   = [''1'', ''3'']"
  by (simp add: example_defs replace_Z_not_a_date)

section \<open>Listing\<close>


lemma list_keys_pairs:
  "\<forall>z\<in>set zs. list_key (snd z) = Inr (fst z) \<Longrightarrow> list_keys (map snd zs) = Inr (map fst zs)"
  by (induction zs) auto

lemma list_keys_zip:
  "list_keys ts = Inr ks \<Longrightarrow>
   length ks = length ts \<and> (\<forall>z\<in>set (zip ks ts). list_key (snd z) = Inr (fst z))"
proof (induction ts arbitrary: ks)
  case Nil
  then show ?case by simp
next
  case (Cons t ts)
  from Cons.prems obtain k ks' where k: "list_key t = Inr k" and ks': "list_keys ts = Inr ks'"
    and ks: "ks = k # ks'"
    by (auto split: sum.splits)
  from Cons.IH [OF ks'] k show ?case unfolding ks by auto
qed

lemma list_keys_defined:
  "\<forall>t\<in>set ts. priority t \<noteq> None \<Longrightarrow> \<exists>ks. list_keys ts = Inr ks"
  by (induction ts) (auto simp: list_key_def)

lemma sorted_by_keys:
  assumes "list_keys ts = Inr ks"
  shows "mset (map snd (sort_key fst (zip ks ts))) = mset ts
         \<and> list_keys (map snd (sort_key fst (zip ks ts))) = Inr (map fst (sort_key fst (zip ks ts)))
         \<and> sorted (map fst (sort_key fst (zip ks ts)))
         \<and> (\<forall>k. filter (\<lambda>t. list_key t = Inr k) (map snd (sort_key fst (zip ks ts)))
                 = filter (\<lambda>t. list_key t = Inr k) ts)"
proof -
  from list_keys_zip [OF assms] have len: "length ks = length ts"
    and pairs: "\<forall>z\<in>set (zip ks ts). list_key (snd z) = Inr (fst z)"
    by simp_all
  from len have unzip: "map snd (zip ks ts) = ts" by simp
  have "mset (map snd (sort_key fst (zip ks ts))) = mset (map snd (zip ks ts))"
    by simp
  with unzip have m: "mset (map snd (sort_key fst (zip ks ts))) = mset ts" by simp
  from pairs have "\<forall>z\<in>set (sort_key fst (zip ks ts)). list_key (snd z) = Inr (fst z)"
    by simp
  then have k: "list_keys (map snd (sort_key fst (zip ks ts)))
                  = Inr (map fst (sort_key fst (zip ks ts)))"
    by (rule list_keys_pairs)
  have s: "sorted (map fst (sort_key fst (zip ks ts)))" by (rule sorted_sort_key)
  have f: "filter (\<lambda>t. list_key t = Inr k) (map snd (sort_key fst (zip ks ts)))
             = filter (\<lambda>t. list_key t = Inr k) ts" for k
  proof -
    have same: "filter (\<lambda>z. list_key (snd z) = Inr k) zs = filter (\<lambda>z. fst z = k) zs"
      if "\<forall>z\<in>set zs. list_key (snd z) = Inr (fst z)" for zs :: "((nat \<times> int) \<times> Task) list"
      using that by (induction zs) auto
    have "filter (\<lambda>t. list_key t = Inr k) (map snd (sort_key fst (zip ks ts)))
            = map snd (filter (\<lambda>z. list_key (snd z) = Inr k) (sort_key fst (zip ks ts)))"
      by (simp add: filter_map comp_def)
    also have "\<dots> = map snd (filter (\<lambda>z. fst z = k) (sort_key fst (zip ks ts)))"
      using same [of "sort_key fst (zip ks ts)"] pairs by simp
    also have "\<dots> = map snd (filter (\<lambda>z. fst z = k) (zip ks ts))"
      by (simp add: sort_key_stable)
    also have "\<dots> = map snd (filter (\<lambda>z. list_key (snd z) = Inr k) (zip ks ts))"
      using same [of "zip ks ts"] pairs by simp
    also have "\<dots> = filter (\<lambda>t. list_key t = Inr k) (map snd (zip ks ts))"
      by (simp add: filter_map comp_def)
    finally show ?thesis using unzip by simp
  qed
  from m k s f show ?thesis by blast
qed






text \<open>
  On a store whose tasks all have a priority, \<open>list_tasks\<close> with no filter returns all
  stored tasks, ordered by priority rank and then by \<open>created_at\<close>, tasks with equal keys
  in the order of the store; and three tasks created in an empty store with the priorities
  medium, urgent and low are returned as urgent, medium, low.
\<close>

lemma list_tasks_sorted_when_priorities_set:
  assumes "\<forall>t\<in>set (map snd (tasks st)). priority t \<noteq> None"
  shows "\<exists>r ks. list_tasks st None None = Inr r
           \<and> mset r = mset (map snd (tasks st))
           \<and> list_keys r = Inr ks
           \<and> sorted_wrt (\<lambda>a b. fst a < fst b \<or> (fst a = fst b \<and> snd a \<le> snd b)) ks
           \<and> (\<forall>k. filter (\<lambda>t. list_key t = Inr k) r
                   = filter (\<lambda>t. list_key t = Inr k) (map snd (tasks st)))"
proof -
  from list_keys_defined [OF assms] obtain ks where ks: "list_keys (map snd (tasks st)) = Inr ks"
    by blast
  then have l: "list_tasks st None None = Inr (map snd (sort_key fst (zip ks (map snd (tasks st)))))"
    by (simp add: list_tasks_def)
  have "sorted_wrt (\<lambda>a b. fst a < fst b \<or> (fst a = fst b \<and> snd a \<le> snd b)) xs"
    if "sorted xs" for xs :: "(nat \<times> int) list"
    using that by (rule sorted_wrt_mono_rel [rotated]) (auto simp: less_eq_prod_def)
  with sorted_by_keys [OF ks] l show ?thesis by auto
qed

lemma three_creates:
  assumes c1: "create_task fromiso n1 TaskStorage_init r1 = (Inr t1, s1)"
    and c2: "create_task fromiso n2 s1 r2 = (Inr t2, s2)"
    and c3: "create_task fromiso n3 s2 r3 = (Inr t3, s3)"
  shows "tasks s3 = [(''1'', t1), (''2'', t2), (''3'', t3)]
         \<and> priority t1 = Some (c_priority r1) \<and> priority t2 = Some (c_priority r2)
         \<and> priority t3 = Some (c_priority r3)"
proof -
  from c1 have s1: "s1 = \<lparr>tasks = [(''1'', t1)], next_id = 2\<rparr>"
    and p1: "priority t1 = Some (c_priority r1)"
    by (auto simp: create_task_def Let_def TaskStorage_init_def str_int_1
             split: sum.splits option.splits if_splits)
  from c2 have s2: "s2 = \<lparr>tasks = [(''1'', t1), (''2'', t2)], next_id = 3\<rparr>"
    and p2: "priority t2 = Some (c_priority r2)"
    unfolding s1
    by (auto simp: create_task_def Let_def str_int_2 split: sum.splits option.splits if_splits)
  from c3 have s3: "s3 = \<lparr>tasks = [(''1'', t1), (''2'', t2), (''3'', t3)], next_id = 4\<rparr>"
    and p3: "priority t3 = Some (c_priority r3)"
    unfolding s2
    by (auto simp: create_task_def Let_def str_int_3 split: sum.splits option.splits if_splits)
  from s3 p1 p2 p3 show ?thesis by simp
qed

lemma list_tasks_example_order:
  assumes "create_task fromiso n1 TaskStorage_init r1 = (Inr t1, s1)"
    and "create_task fromiso n2 s1 r2 = (Inr t2, s2)"
    and "create_task fromiso n3 s2 r3 = (Inr t3, s3)"
    and "c_priority r1 = MEDIUM" and "c_priority r2 = URGENT" and "c_priority r3 = LOW"
  shows "list_tasks s3 None None = Inr [t2, t1, t3]"
  using three_creates [OF assms(1-3)] assms(4-6)
  by (simp add: list_tasks_def list_key_def)

text \<open>
  C1. \<open>list_tasks\<close> with no filter is meant to return all stored tasks in the order of
  their priority rank. A patch that sets \<open>priority\<close> to \<open>null\<close> is kept by
  \<open>model_dump(exclude_unset=True)\<close> and assigned by lines 106 and 109 without validation,
  so the stored task has the priority \<open>None\<close>; line 130 then looks \<open>None\<close> up in
  \<open>priority_order\<close> and raises \<open>KeyError\<close>. The tool returns the error envelope,
  not the list of the one stored task.
\<close>

theorem list_tasks_priority_none_raises:
  "tasks (run example_fromiso TaskStorage_init
            [(5, Create (simple_request ''a'' HIGH None)),
             (9, Update ''1'' (empty_patch\<lparr>u_priority := Some None\<rparr>))])
     = [(''1'', example_task\<lparr>priority := None\<rparr>)]
   \<and> list_tasks
       (run example_fromiso TaskStorage_init
          [(5, Create (simple_request ''a'' HIGH None)),
           (9, Update ''1'' (empty_patch\<lparr>u_priority := Some None\<rparr>))]) None None
     = Inl (KeyError ''None'')
   \<and> tool_list_tasks
       (run example_fromiso TaskStorage_init
          [(5, Create (simple_request ''a'' HIGH None)),
           (9, Update ''1'' (empty_patch\<lparr>u_priority := Some None\<rparr>))]) None None
     = ErrorEnvelope ''None''"
  by (simp add: tool_list_tasks_def task_status_def list_tasks_def list_key_def example_defs)




section \<open>Statistics\<close>

text \<open>
  On an empty store \<open>get_stats\<close> returns a total of 0 and two empty dicts, without the
  key \<open>overdue\<close>. On a store whose tasks all have a status and a priority and whose due
  dates are all naive datetimes or unset it returns the count of the tasks that have a due
  date before \<open>now\<close> and are not completed. A single task with an aware due date makes
  it raise.
\<close>

lemma replace_Z_example: "replace_Z ''2020-01-01T00:00:00Z'' = ''2020-01-01T00:00:00+00:00''"
  by (simp add: replace_Z_def)

lemma get_stats_empty:
  "tasks st = [] \<Longrightarrow>
   get_stats now st = Inr \<lparr>total = 0, by_status = [], by_priority = [], overdue = None\<rparr>"
  by (simp add: get_stats_def)

lemma is_overdue_naive:
  "due_date t = None \<or> (\<exists>d. due_date t = Some (DueDatetime (Naive d))) \<Longrightarrow>
   is_overdue now t
     = Inr (case due_date t of
              Some (DueDatetime (Naive d)) \<Rightarrow> d < now \<and> status t \<noteq> Some COMPLETED
            | _ \<Rightarrow> False)"
  by (auto simp: is_overdue_def)

lemma stats_loop_naive:
  assumes "\<forall>t\<in>set ts. due_date t = None \<or> (\<exists>d. due_date t = Some (DueDatetime (Naive d)))"
    and "\<forall>t\<in>set ts. status t \<noteq> None \<and> priority t \<noteq> None"
  shows "\<exists>bs' bp'. stats_loop now ts (bs, bp, od)
           = Inr (bs', bp',
                  od + length (filter (\<lambda>t. case due_date t of
                                              Some (DueDatetime (Naive d)) \<Rightarrow>
                                                d < now \<and> status t \<noteq> Some COMPLETED
                                            | _ \<Rightarrow> False) ts))"
  using assms
proof (induction ts arbitrary: bs bp od)
  case Nil
  show ?case by simp
next
  case (Cons t ts)
  from Cons.prems have t: "due_date t = None \<or> (\<exists>d. due_date t = Some (DueDatetime (Naive d)))"
    and rest: "\<forall>t\<in>set ts. due_date t = None \<or> (\<exists>d. due_date t = Some (DueDatetime (Naive d)))"
    and rest': "\<forall>t\<in>set ts. status t \<noteq> None \<and> priority t \<noteq> None"
    by simp_all
  from Cons.prems obtain s p where s: "status t = Some s" and p: "priority t = Some p"
    by auto
  show ?case
  proof (cases "case due_date t of
                  Some (DueDatetime (Naive d)) \<Rightarrow> d < now \<and> status t \<noteq> Some COMPLETED
                | _ \<Rightarrow> False")
    case True
    with Cons.IH [OF rest rest', of "dict_incr bs (status_value s)"
                    "dict_incr bp (priority_value p)" "od + 1"]
    show ?thesis by (simp add: is_overdue_naive [OF t] s p)
  next
    case False
    with Cons.IH [OF rest rest', of "dict_incr bs (status_value s)"
                    "dict_incr bp (priority_value p)" od]
    show ?thesis by (simp add: is_overdue_naive [OF t] s p)
  qed
qed

lemma get_stats_naive:
  assumes "\<forall>t\<in>set (map snd (tasks st)).
             due_date t = None \<or> (\<exists>d. due_date t = Some (DueDatetime (Naive d)))"
    and "\<forall>t\<in>set (map snd (tasks st)). status t \<noteq> None \<and> priority t \<noteq> None"
    and "tasks st \<noteq> []"
  shows "\<exists>bs bp. get_stats now st
           = Inr \<lparr>total = length (tasks st), by_status = bs, by_priority = bp,
                  overdue = Some (length (filter (\<lambda>t. case due_date t of
                                                        Some (DueDatetime (Naive d)) \<Rightarrow>
                                                          d < now \<and> status t \<noteq> Some COMPLETED
                                                      | _ \<Rightarrow> False)
                                           (map snd (tasks st))))\<rparr>"
proof -
  from stats_loop_naive [OF assms(1,2), of now "[]" "[]" 0] obtain bs bp where
    "stats_loop now (map snd (tasks st)) ([], [], 0)
       = Inr (bs, bp, length (filter (\<lambda>t. case due_date t of
                                              Some (DueDatetime (Naive d)) \<Rightarrow>
                                                d < now \<and> status t \<noteq> Some COMPLETED
                                            | _ \<Rightarrow> False) (map snd (tasks st))))"
    by auto
  with assms(3) show ?thesis by (simp add: get_stats_def)
qed

lemma stats_loop_raises:
  "t \<in> set ts \<Longrightarrow> is_overdue now t = Inl e \<Longrightarrow> \<exists>e'. stats_loop now ts acc = Inl e'"
proof (induction ts arbitrary: acc)
  case Nil
  then show ?case by simp
next
  case (Cons a ts)
  obtain bs bp od where acc: "acc = (bs, bp, od)" by (cases acc)
  show ?case
  proof (cases "is_overdue now a")
    case (Inl e')
    then show ?thesis by (simp add: acc split: option.splits)
  next
    case (Inr b)
    with Cons.prems have "t \<in> set ts" by auto
    from Cons.IH [OF this Cons.prems(2)] Inr show ?thesis
      by (simp add: acc split: option.splits)
  qed
qed

lemma get_stats_aware_raises:
  assumes "(k, t) \<in> set (tasks st)" and "due_date t = Some (DueDatetime (Aware a))"
  shows "\<exists>e. get_stats now st = Inl e"
proof -
  from assms(2) have "is_overdue now t
      = Inl (TypeError ''can't compare offset-naive and offset-aware datetimes'')"
    by (simp add: is_overdue_def)
  moreover from assms(1) have "t \<in> set (map snd (tasks st))" by force
  ultimately obtain e where "stats_loop now (map snd (tasks st)) ([], [], 0) = Inl e"
    using stats_loop_raises by blast
  moreover from assms(1) have "tasks st \<noteq> []" by auto
  ultimately show ?thesis by (simp add: get_stats_def)
qed

lemma get_stats_naive_example:
  "get_stats 1600000000000000
     (run example_fromiso TaskStorage_init
        [(5, Create (simple_request ''a'' MEDIUM (Some ''2020-01-01T00:00:00'')))])
   = Inr \<lparr>total = 1, by_status = [(''todo'', 1)], by_priority = [(''medium'', 1)],
          overdue = Some 1\<rparr>"
  by (simp add: get_stats_def is_overdue_def dict_incr_def example_defs)

text \<open>
  C4. \<open>get_stats\<close> is meant to count the tasks that are overdue. A task created with the
  due date \<open>2020-01-01T00:00:00Z\<close> gets an aware datetime, because line 75 rewrites
  \<open>Z\<close> to \<open>+00:00\<close>; line 157 then compares it with the naive \<open>datetime.now()\<close>,
  and Python raises \<open>TypeError\<close>. The tool returns the error envelope, not the statistics
  with \<open>overdue\<close> equal to 1.
\<close>

theorem get_stats_aware_due_date_raises:
  "tasks (run example_fromiso TaskStorage_init
            [(5, Create (simple_request ''a'' MEDIUM (Some ''2020-01-01T00:00:00Z'')))])
     = [(''1'', (fresh_task ''1'' ''a'' MEDIUM 5)
                  \<lparr>due_date := Some (DueDatetime (Aware 1577836800000000))\<rparr>)]
   \<and> get_stats 1600000000000000
       (run example_fromiso TaskStorage_init
          [(5, Create (simple_request ''a'' MEDIUM (Some ''2020-01-01T00:00:00Z'')))])
     = Inl (TypeError ''can't compare offset-naive and offset-aware datetimes'')
   \<and> tool_get_task_stats 1600000000000000
       (run example_fromiso TaskStorage_init
          [(5, Create (simple_request ''a'' MEDIUM (Some ''2020-01-01T00:00:00Z'')))])
     = ErrorEnvelope ''can't compare offset-naive and offset-aware datetimes''"
  by (simp add: tool_get_task_stats_def get_stats_def is_overdue_def dict_incr_def
        replace_Z_example example_defs)

end
